theory Spec2Isabelle
  imports Complex_Main "HOL-Library.Sublist"
begin

section \<open>JavaScript strings and numbers\<close>

text \<open>
  A JavaScript string is a sequence of UTF-16 code units. The model covers the code units
  U+0000 to U+00FF, one \<^typ>\<open>char\<close> each, and is exact there: the white space that
  \<^verbatim>\<open>String.prototype.trim\<close> strips in this range is TAB, LF, VT, FF, CR, SPACE and
  NO-BREAK SPACE, and \<^verbatim>\<open>toLowerCase\<close> maps A-Z and the Latin-1 capitals
  U+00C0-U+00DE (without the multiplication sign U+00D7) to the letter 32 places further on.
\<close>

definition js_whitespace :: "char \<Rightarrow> bool" where
  "js_whitespace c \<longleftrightarrow>
     c \<in> set [CHR 0x09, CHR 0x0A, CHR 0x0B, CHR 0x0C, CHR 0x0D, CHR 0x20, CHR 0xA0]"

definition trim :: "string \<Rightarrow> string" where
  "trim s = rev (dropWhile js_whitespace (rev (dropWhile js_whitespace s)))"

definition toLowerCase_char :: "char \<Rightarrow> char" where
  "toLowerCase_char c =
     (let n = (of_char c :: nat)
      in if (65 \<le> n \<and> n \<le> 90) \<or> (192 \<le> n \<and> n \<le> 222 \<and> n \<noteq> 215)
         then char_of (n + 32) else c)"

definition toLowerCase :: "string \<Rightarrow> string" where
  "toLowerCase s = map toLowerCase_char s"

text \<open>\<^verbatim>\<open>s.includes(t)\<close>: does \<open>t\<close> occur in \<open>s\<close> at some position, scanning from the left.\<close>

fun includes_str :: "string \<Rightarrow> string \<Rightarrow> bool" where
  "includes_str [] t = (t = [])"
| "includes_str (c # s) t = (prefix t (c # s) \<or> includes_str s t)"

text \<open>
  \<^verbatim>\<open>s.split(sep)\<close> for a one-character separator: the pieces between the separators,
  always at least one piece. \<open>split_acc\<close> carries the piece being read.
\<close>

fun split_acc :: "char \<Rightarrow> string \<Rightarrow> string \<Rightarrow> string list" where
  "split_acc sep cur [] = [cur]"
| "split_acc sep cur (c # s) =
     (if c = sep then cur # split_acc sep [] s else split_acc sep (cur @ [c]) s)"

definition split :: "char \<Rightarrow> string \<Rightarrow> string list" where
  "split sep s = split_acc sep [] s"

text \<open>
  Numbers that arrive in a JSON body or as a file size are finite, so they are modelled as
  \<^typ>\<open>real\<close>; a number is falsy exactly when it is zero. Conversion of a number to a
  string follows the case analysis of \<^verbatim>\<open>Number::toString\<close>: zero prints as \<open>0\<close>, a
  negative number as a minus sign and the text of its absolute value. The digit generation
  for a positive number is the parameter \<open>digits\<close>; \<^verbatim>\<open>toFixed(1)\<close> is the parameter
  \<open>fixed1\<close> wherever it is called.
\<close>

definition Number_toString :: "(real \<Rightarrow> string) \<Rightarrow> real \<Rightarrow> string" where
  "Number_toString digits x =
     (if x = 0 then ''0'' else if x < 0 then ''-'' @ digits (- x) else digits x)"

text \<open>Decimal digits of a natural number: the text JavaScript prints for an integer below \<open>10^21\<close>.\<close>

fun decimal :: "nat \<Rightarrow> string" where
  "decimal n =
     (if n < 10 then [char_of (48 + n)] else decimal (n div 10) @ [char_of (48 + n mod 10)])"

definition integer_digits :: "real \<Rightarrow> string" where
  "integer_digits x = decimal (nat \<lfloor>x\<rfloor>)"

text \<open>Truthiness of an optional string and of an optional number.\<close>

definition truthy_string :: "string option \<Rightarrow> bool" where
  "truthy_string v = (case v of None \<Rightarrow> False | Some s \<Rightarrow> s \<noteq> [])"

definition truthy_number :: "real option \<Rightarrow> bool" where
  "truthy_number v = (case v of None \<Rightarrow> False | Some x \<Rightarrow> x \<noteq> 0)"

text \<open>The outcome of an awaited request: the promise rejects (\<open>Inl\<close>) or resolves (\<open>Inr\<close>).\<close>

record api_error =
  status :: "nat option"
  detail :: "string option"

datatype toast = ToastError string | ToastSuccess string


section \<open>Query page\<close>

record citation =
  c_index :: real
  c_filename :: string
  c_file_type :: "string option"
  c_score :: "real option"
  c_page_number :: "real option"
  c_timestamp :: "string option"
  c_text_preview :: string

record query_request =
  query :: string
  top_k :: nat

record query_response =
  answer :: string
  res_citations :: "citation list"

text \<open>A chat message; \<open>citations\<close> is \<open>None\<close> when the object has no such field.\<close>

record message =
  role :: string
  content :: string
  citations :: "citation list option"

datatype icon = FileText | Image | Music | File

definition typeIcons :: "string \<rightharpoonup> icon" where
  "typeIcons = [''pdf'' \<mapsto> FileText, ''docx'' \<mapsto> FileText, ''image'' \<mapsto> Image, ''audio'' \<mapsto> Music]"

text \<open>
  What \<open>CitationCard\<close> renders: the trigger button with its test id, icon, title line and
  detail line, and the collapsible content, which is on screen only while the card is open.
\<close>

record citation_card =
  card_testid :: string
  card_icon :: icon
  card_title :: string
  card_detail :: string
  card_open :: bool
  card_content :: "string option"

definition CitationCard :: "(real \<Rightarrow> string) \<Rightarrow> bool \<Rightarrow> citation \<Rightarrow> citation_card" where
  "CitationCard digits opn c =
     \<lparr> card_testid = ''citation-'' @ Number_toString digits (c_index c),
       card_icon = (case c_file_type c of None \<Rightarrow> FileText
                    | Some t \<Rightarrow> (case typeIcons t of None \<Rightarrow> FileText | Some i \<Rightarrow> i)),
       card_title = ''['' @ Number_toString digits (c_index c) @ ''] '' @ c_filename c,
       card_detail =
         (if truthy_number (c_page_number c)
          then ''Page '' @ Number_toString digits (the (c_page_number c)) else '''') @
         (if truthy_string (c_timestamp c) then '' '' @ the (c_timestamp c) else '''') @
         (if truthy_number (c_score c)
          then '' // Score: '' @ Number_toString digits (the (c_score c)) else ''''),
       card_open = opn,
       card_content = (if opn then Some (c_text_preview c) else None) \<rparr>"

text \<open>Every card is mounted closed (\<^verbatim>\<open>useState(false)\<close>), whatever its position.\<close>

definition card_open_init :: "nat \<Rightarrow> bool" where
  "card_open_init i = False"

text \<open>
  What \<open>MessageBubble\<close> renders: the alignment, the assistant header, the text and, when the
  message has a non-empty citation list, the reference block with one card per citation.
  \<open>opened i\<close> is the open state of the card at position \<open>i\<close>.
\<close>

record message_bubble =
  bubble_is_user :: bool
  bubble_header :: bool
  bubble_text :: string
  bubble_references :: "citation_card list option"

definition MessageBubble :: "(real \<Rightarrow> string) \<Rightarrow> (nat \<Rightarrow> bool) \<Rightarrow> message \<Rightarrow> message_bubble" where
  "MessageBubble digits opened m =
     (let isUser = (role m = ''user'')
      in \<lparr> bubble_is_user = isUser,
           bubble_header = (\<not> isUser),
           bubble_text = content m,
           bubble_references =
             (case citations m of
                None \<Rightarrow> None
              | Some cs \<Rightarrow>
                  if length cs > 0
                  then Some (map (\<lambda>(i, c). CitationCard digits (opened i) c) (enumerate 0 cs))
                  else None) \<rparr>)"

record query_page =
  messages :: "message list"
  input :: string
  loading :: bool

definition query_page_init :: query_page where
  "query_page_init = \<lparr> messages = [], input = [], loading = False \<rparr>"

text \<open>
  \<open>sendQuery\<close> up to its \<^verbatim>\<open>await\<close>: the guard, the three state updates and the request
  that is posted to \<^verbatim>\<open>/query\<close> (\<open>None\<close> when the handler returns early).
\<close>

definition sendQuery_submit :: "query_page \<Rightarrow> query_page \<times> query_request option" where
  "sendQuery_submit st =
     (if trim (input st) = [] \<or> loading st then (st, None)
      else
        let q = trim (input st)
        in (st\<lparr> input := [],
                messages := messages st @ [\<lparr> role = ''user'', content = q, citations = None \<rparr>],
                loading := True \<rparr>,
            Some \<lparr> query = q, top_k = 5 \<rparr>))"

text \<open>
  \<open>sendQuery\<close> after the \<^verbatim>\<open>await\<close>: the \<^verbatim>\<open>try\<close> branch on a resolved request, the
  \<^verbatim>\<open>catch\<close> branch on a rejected one, then \<^verbatim>\<open>finally\<close>. The updates are functional
  (\<^verbatim>\<open>prev => [...prev, m]\<close>), so they apply to the state at that time.
\<close>

definition query_error_text :: string where
  "query_error_text = ''System error: Unable to process query. Please try again.''"

definition sendQuery_settle ::
  "api_error + query_response \<Rightarrow> query_page \<Rightarrow> query_page \<times> toast list" where
  "sendQuery_settle r st =
     (case r of
        Inr res \<Rightarrow>
          (st\<lparr> messages := messages st @
                  [\<lparr> role = ''assistant'', content = answer res,
                     citations = Some (res_citations res) \<rparr>],
               loading := False \<rparr>, [])
      | Inl err \<Rightarrow>
          (st\<lparr> messages := messages st @
                  [\<lparr> role = ''assistant'', content = query_error_text, citations = None \<rparr>],
               loading := False \<rparr>, [ToastError ''Query failed'']))"

text \<open>One whole submission against a backend \<open>api\<close> that answers the posted request.\<close>

definition sendQuery ::
  "(query_request \<Rightarrow> api_error + query_response) \<Rightarrow> query_page \<Rightarrow> query_page \<times> toast list" where
  "sendQuery api st =
     (case sendQuery_submit st of
        (st', None) \<Rightarrow> (st', [])
      | (st', Some rq) \<Rightarrow> sendQuery_settle (api rq) st')"


section \<open>Documents page\<close>

record document =
  d_id :: string
  d_filename :: string
  d_file_type :: string
  d_file_size :: real
  d_total_chunks :: real
  d_status :: "string option"
  d_uploaded_at :: "string option"

definition formatSize_documents :: "(real \<Rightarrow> string) \<Rightarrow> (real \<Rightarrow> string) \<Rightarrow> real \<Rightarrow> string" where
  "formatSize_documents digits fixed1 bytes =
     (if bytes = 0 then ''0 B''
      else if bytes < 1024 then Number_toString digits bytes @ '' B''
      else if bytes < 1048576 then fixed1 (bytes / 1024) @ '' KB''
      else fixed1 (bytes / 1048576) @ '' MB'')"

record documents_page =
  docs :: "document list"
  docs_loading :: bool
  search :: string
  deleting :: "string option"

text \<open>
  \<open>deleteDoc\<close> up to its \<^verbatim>\<open>await\<close> (the id whose deletion is requested is returned), and
  after it: the list is filtered only in the \<^verbatim>\<open>try\<close> branch, by a functional update.
\<close>

definition deleteDoc_submit :: "document \<Rightarrow> documents_page \<Rightarrow> documents_page \<times> string" where
  "deleteDoc_submit doc st = (st\<lparr> deleting := Some (d_id doc) \<rparr>, d_id doc)"

definition deleteDoc_settle ::
  "api_error + unit \<Rightarrow> document \<Rightarrow> documents_page \<Rightarrow> documents_page \<times> toast list" where
  "deleteDoc_settle r doc st =
     (case r of
        Inr ok \<Rightarrow>
          (st\<lparr> docs := filter (\<lambda>d. d_id d \<noteq> d_id doc) (docs st), deleting := None \<rparr>,
           [ToastSuccess (d_filename doc @ '' removed'')])
      | Inl err \<Rightarrow> (st\<lparr> deleting := None \<rparr>, [ToastError ''Delete failed'']))"

definition deleteDoc ::
  "(string \<Rightarrow> api_error + unit) \<Rightarrow> document \<Rightarrow> documents_page \<Rightarrow> documents_page \<times> toast list" where
  "deleteDoc api doc st =
     (case deleteDoc_submit doc st of (st', rid) \<Rightarrow> deleteDoc_settle (api rid) doc st')"

text \<open>The rows of the table: \<open>filtered\<close> is recomputed from \<open>docs\<close> and \<open>search\<close> at each render.\<close>

definition matches_search :: "string \<Rightarrow> document \<Rightarrow> bool" where
  "matches_search srch d \<longleftrightarrow>
     includes_str (toLowerCase (d_filename d)) (toLowerCase srch) \<or>
     includes_str (toLowerCase (d_file_type d)) (toLowerCase srch)"

definition filtered :: "documents_page \<Rightarrow> document list" where
  "filtered st = filter (matches_search (search st)) (docs st)"


section \<open>Admin page\<close>

record ('l, 'u) admin_page =
  logs :: "'l list"
  users :: "'u list"
  admin_loading :: bool
  rebuilding :: bool
  tab :: string

definition admin_page_init :: "('l, 'u) admin_page" where
  "admin_page_init =
     \<lparr> logs = [], users = [], admin_loading = True, rebuilding = False, tab = ''logs'' \<rparr>"

text \<open>
  The page together with its surroundings: whether the signed-in user is an admin (the page
  renders the rebuild button only then), the requests that are in flight, and the number of
  rebuild requests posted so far. The page is a route element (\<^verbatim>\<open>/admin\<close>), so it is
  unmounted when the user navigates away and mounted afresh on return, while requests posted
  before stay pending: \<open>rebuilds_in_flight\<close> and \<open>fetches_in_flight\<close> count the pending
  requests of the page as now mounted, \<open>stale_rebuilds\<close> and \<open>stale_fetches\<close> those posted by
  an earlier mount.
\<close>

record ('l, 'u) admin_world =
  page :: "('l, 'u) admin_page"
  is_admin :: bool
  rebuilds_in_flight :: nat
  stale_rebuilds :: nat
  fetches_in_flight :: nat
  stale_fetches :: nat
  rebuilds_posted :: nat
  admin_toasts :: "toast list"

definition pending_rebuilds :: "('l, 'u) admin_world \<Rightarrow> nat" where
  "pending_rebuilds w = rebuilds_in_flight w + stale_rebuilds w"

definition fetchData_submit :: "('l, 'u) admin_world \<Rightarrow> ('l, 'u) admin_world" where
  "fetchData_submit w =
     w\<lparr> page := (page w)\<lparr> admin_loading := True \<rparr>,
        fetches_in_flight := Suc (fetches_in_flight w) \<rparr>"

definition fetchData_settle ::
  "api_error + 'l list \<times> 'u list \<Rightarrow> ('l, 'u) admin_world \<Rightarrow> ('l, 'u) admin_world" where
  "fetchData_settle r w =
     (case r of
        Inr (ls, us) \<Rightarrow>
          w\<lparr> page := (page w)\<lparr> logs := ls, users := us, admin_loading := False \<rparr>,
             fetches_in_flight := fetches_in_flight w - 1 \<rparr>
      | Inl err \<Rightarrow>
          w\<lparr> page := (page w)\<lparr> admin_loading := False \<rparr>,
             fetches_in_flight := fetches_in_flight w - 1,
             admin_toasts := admin_toasts w @
               (if status err = Some 403 then [ToastError ''Admin access required''] else []) \<rparr>)"

text \<open>
  \<open>rebuildIndex\<close> up to its \<^verbatim>\<open>await\<close>, and after it: the toast of the \<^verbatim>\<open>try\<close> or
  \<^verbatim>\<open>catch\<close> branch, then \<^verbatim>\<open>finally\<close> clears the flag and calls \<open>fetchData\<close>.
\<close>

definition rebuildIndex_submit :: "('l, 'u) admin_world \<Rightarrow> ('l, 'u) admin_world" where
  "rebuildIndex_submit w =
     w\<lparr> page := (page w)\<lparr> rebuilding := True \<rparr>,
        rebuilds_in_flight := Suc (rebuilds_in_flight w),
        rebuilds_posted := Suc (rebuilds_posted w) \<rparr>"

definition rebuildIndex_settle ::
  "api_error + string \<Rightarrow> ('l, 'u) admin_world \<Rightarrow> ('l, 'u) admin_world" where
  "rebuildIndex_settle r w =
     fetchData_submit
       (w\<lparr> page := (page w)\<lparr> rebuilding := False \<rparr>,
           rebuilds_in_flight := rebuilds_in_flight w - 1,
           admin_toasts := admin_toasts w @
             [case r of Inr msg \<Rightarrow> ToastSuccess msg | Inl err \<Rightarrow> ToastError ''Rebuild failed''] \<rparr>)"

text \<open>
  The same continuations when the request was posted by an earlier mount: the toasts appear
  as before, the state setters act on a component that is gone and change nothing of the page
  now mounted, and the \<open>fetchData\<close> called from \<^verbatim>\<open>finally\<close> posts requests that are stale
  from the start.
\<close>

definition rebuildIndex_settle_stale ::
  "api_error + string \<Rightarrow> ('l, 'u) admin_world \<Rightarrow> ('l, 'u) admin_world" where
  "rebuildIndex_settle_stale r w =
     w\<lparr> stale_rebuilds := stale_rebuilds w - 1,
        stale_fetches := Suc (stale_fetches w),
        admin_toasts := admin_toasts w @
          [case r of Inr msg \<Rightarrow> ToastSuccess msg | Inl err \<Rightarrow> ToastError ''Rebuild failed''] \<rparr>"

definition fetchData_settle_stale ::
  "api_error + 'l list \<times> 'u list \<Rightarrow> ('l, 'u) admin_world \<Rightarrow> ('l, 'u) admin_world" where
  "fetchData_settle_stale r w =
     w\<lparr> stale_fetches := stale_fetches w - 1,
        admin_toasts := admin_toasts w @
          (case r of
             Inr ok \<Rightarrow> []
           | Inl err \<Rightarrow>
               if status err = Some 403 then [ToastError ''Admin access required''] else []) \<rparr>"

text \<open>
  Leaving the page and coming back: the new instance starts from the initial values of its
  \<^verbatim>\<open>useState\<close> calls and runs the mount effect; what was in flight stays pending, now stale.
\<close>

definition admin_remount :: "('l, 'u) admin_world \<Rightarrow> ('l, 'u) admin_world" where
  "admin_remount w =
     fetchData_submit
       (w\<lparr> page := admin_page_init,
           stale_rebuilds := stale_rebuilds w + rebuilds_in_flight w,
           rebuilds_in_flight := 0,
           stale_fetches := stale_fetches w + fetches_in_flight w,
           fetches_in_flight := 0 \<rparr>)"

text \<open>
  The rebuild button is rendered for an admin only and carries \<^verbatim>\<open>disabled={rebuilding}\<close>;
  a click reaches \<open>rebuildIndex\<close> only when the button is there and enabled.
\<close>

definition rebuild_button_disabled :: "('l, 'u) admin_world \<Rightarrow> bool" where
  "rebuild_button_disabled w \<longleftrightarrow> rebuilding (page w)"

datatype ('l, 'u) admin_event =
    ClickRebuild
  | RebuildSettled "api_error + string"
  | StaleRebuildSettled "api_error + string"
  | ClickRefresh
  | FetchSettled "api_error + 'l list \<times> 'u list"
  | StaleFetchSettled "api_error + 'l list \<times> 'u list"
  | SelectTab string
  | Remount

text \<open>
  One event of the page. A request can settle only while it is in flight; the refresh button
  and the tabs are rendered for an admin only, like the rebuild button.
\<close>

fun admin_step :: "('l, 'u) admin_world \<Rightarrow> ('l, 'u) admin_event \<Rightarrow> ('l, 'u) admin_world" where
  "admin_step w ClickRebuild =
     (if is_admin w \<and> \<not> rebuild_button_disabled w then rebuildIndex_submit w else w)"
| "admin_step w (RebuildSettled r) =
     (if rebuilds_in_flight w = 0 then w else rebuildIndex_settle r w)"
| "admin_step w (StaleRebuildSettled r) =
     (if stale_rebuilds w = 0 then w else rebuildIndex_settle_stale r w)"
| "admin_step w ClickRefresh = (if is_admin w then fetchData_submit w else w)"
| "admin_step w (FetchSettled r) =
     (if fetches_in_flight w = 0 then w else fetchData_settle r w)"
| "admin_step w (StaleFetchSettled r) =
     (if stale_fetches w = 0 then w else fetchData_settle_stale r w)"
| "admin_step w (SelectTab t) = (if is_admin w then w\<lparr> page := (page w)\<lparr> tab := t \<rparr> \<rparr> else w)"
| "admin_step w Remount = admin_remount w"

text \<open>The page as first mounted: the initial state, with the \<open>fetchData\<close> of the mount effect under way.\<close>

definition admin_mount :: "bool \<Rightarrow> ('l, 'u) admin_world" where
  "admin_mount adm =
     fetchData_submit
       \<lparr> page = admin_page_init, is_admin = adm, rebuilds_in_flight = 0, stale_rebuilds = 0,
         fetches_in_flight = 0, stale_fetches = 0, rebuilds_posted = 0, admin_toasts = [] \<rparr>"

definition admin_run :: "bool \<Rightarrow> ('l, 'u) admin_event list \<Rightarrow> ('l, 'u) admin_world" where
  "admin_run adm es = foldl admin_step (admin_mount adm) es"

text \<open>
  What ties the flag to the requests: a rebuild posted by the mounted page is in flight exactly
  while its flag is set.
\<close>

definition rebuild_inv :: "('l, 'u) admin_world \<Rightarrow> bool" where
  "rebuild_inv w \<longleftrightarrow> rebuilds_in_flight w = (if rebuilding (page w) then 1 else 0)"


section \<open>Upload page\<close>

definition getFileType :: "string \<Rightarrow> string" where
  "getFileType name =
     (let ext = toLowerCase (last (split (CHR ''.'') name))
      in if ext \<in> set [''pdf''] then ''pdf''
         else if ext \<in> set [''docx'', ''doc''] then ''docx''
         else if ext \<in> set [''png'', ''jpg'', ''jpeg'', ''gif'', ''bmp'', ''webp''] then ''image''
         else if ext \<in> set [''mp3'', ''wav'', ''ogg'', ''m4a'', ''flac''] then ''audio''
         else ''unknown'')"

definition formatSize_upload :: "(real \<Rightarrow> string) \<Rightarrow> (real \<Rightarrow> string) \<Rightarrow> real \<Rightarrow> string" where
  "formatSize_upload digits fixed1 bytes =
     (if bytes < 1024 then Number_toString digits bytes @ '' B''
      else if bytes < 1048576 then fixed1 (bytes / 1024) @ '' KB''
      else fixed1 (bytes / 1048576) @ '' MB'')"

text \<open>An entry of the file queue; the browser's file object itself plays no part here.\<close>

record file_item =
  f_id :: string
  f_name :: string
  f_size :: real
  f_type :: string

record upload_response =
  total_chunks :: real

record upload_result =
  success :: bool
  data :: "upload_response option"
  error :: "string option"

record upload_page =
  files :: "file_item list"
  dragActive :: bool
  uploading :: "string \<rightharpoonup> bool"
  results :: "string \<rightharpoonup> upload_result"

definition upload_page_init :: upload_page where
  "upload_page_init =
     \<lparr> files = [], dragActive = False, uploading = Map.empty, results = Map.empty \<rparr>"

text \<open>
  \<open>handleFiles\<close>: each offered file comes with the random id drawn for it, its name and its
  size, and is appended to the queue with the type \<open>getFileType\<close> gives its name.
\<close>

definition handleFiles :: "(string \<times> string \<times> real) list \<Rightarrow> upload_page \<Rightarrow> upload_page" where
  "handleFiles newFiles st =
     st\<lparr> files := files st @
            map (\<lambda>(i, n, sz). \<lparr> f_id = i, f_name = n, f_size = sz, f_type = getFileType n \<rparr>)
              newFiles \<rparr>"

text \<open>
  The requests of the page as a trace: \<open>Posted i\<close> when the upload of the file with id \<open>i\<close>
  is sent, \<open>Settled i\<close> when its promise has resolved or rejected.
\<close>

datatype upload_event = Posted string | Settled string

definition uploadFile_submit :: "file_item \<Rightarrow> upload_page \<Rightarrow> upload_page" where
  "uploadFile_submit f st = st\<lparr> uploading := (uploading st)(f_id f \<mapsto> True) \<rparr>"

definition uploadFile_settle ::
  "(real \<Rightarrow> string) \<Rightarrow> api_error + upload_response \<Rightarrow> file_item \<Rightarrow> upload_page \<Rightarrow>
     upload_page \<times> toast list" where
  "uploadFile_settle digits r f st =
     (case r of
        Inr res \<Rightarrow>
          (st\<lparr> results := (results st)(f_id f \<mapsto>
                   \<lparr> success = True, data = Some res, error = None \<rparr>),
               uploading := (uploading st)(f_id f \<mapsto> False) \<rparr>,
           [ToastSuccess (f_name f @ '' indexed ('' @
              Number_toString digits (total_chunks res) @ '' chunks)'')])
      | Inl err \<Rightarrow>
          (st\<lparr> results := (results st)(f_id f \<mapsto>
                   \<lparr> success = False, data = None,
                     error = Some (if truthy_string (detail err) then the (detail err)
                                   else ''Upload failed'') \<rparr>),
               uploading := (uploading st)(f_id f \<mapsto> False) \<rparr>,
           [ToastError (''Failed to upload '' @ f_name f)]))"

text \<open>
  One awaited \<open>uploadFile\<close>: the request is posted, the caller is suspended until it has
  settled, and the branch taken then has run.
\<close>

definition uploadFile ::
  "(real \<Rightarrow> string) \<Rightarrow> (file_item \<Rightarrow> api_error + upload_response) \<Rightarrow> file_item \<Rightarrow>
     upload_page \<times> upload_event list \<Rightarrow> upload_page \<times> upload_event list" where
  "uploadFile digits api f acc =
     (case acc of (st, tr) \<Rightarrow>
        (fst (uploadFile_settle digits (api f) f (uploadFile_submit f st)),
         tr @ [Posted (f_id f), Settled (f_id f)]))"

text \<open>
  \<open>uploadAll\<close>: the files without a result yet, each awaited before the loop goes on to the
  next one.
\<close>

definition pending :: "upload_page \<Rightarrow> file_item list" where
  "pending st = filter (\<lambda>f. results st (f_id f) = None) (files st)"

definition uploadAll ::
  "(real \<Rightarrow> string) \<Rightarrow> (file_item \<Rightarrow> api_error + upload_response) \<Rightarrow> upload_page \<Rightarrow>
     upload_page \<times> upload_event list" where
  "uploadAll digits api st = foldl (\<lambda>acc f. uploadFile digits api f acc) (st, []) (pending st)"

text \<open>A backend that accepts every upload and reports three chunks for it.\<close>

definition backend_accepting :: "file_item \<Rightarrow> api_error + upload_response" where
  "backend_accepting f = Inr \<lparr> total_chunks = 3 \<rparr>"

text \<open>
  The largest number of uploads in flight at once along a trace, starting with \<open>n\<close> in
  flight.
\<close>

fun peak_in_flight :: "nat \<Rightarrow> upload_event list \<Rightarrow> nat" where
  "peak_in_flight n [] = n"
| "peak_in_flight n (Posted i # es) = max n (peak_in_flight (Suc n) es)"
| "peak_in_flight n (Settled i # es) = max n (peak_in_flight (n - 1) es)"


section \<open>Properties of the string primitives\<close>

lemma rev_dropWhile_takeWhile:
  "rev (dropWhile P (rev t)) @ rev (takeWhile P (rev t)) = t"
proof -
  have "rev (dropWhile P (rev t)) @ rev (takeWhile P (rev t)) =
        rev (takeWhile P (rev t) @ dropWhile P (rev t))"
    by (simp only: rev_append)
  also have "\<dots> = rev (rev t)"
    by (simp only: takeWhile_dropWhile_id)
  finally show ?thesis
    by simp
qed

lemma trim_dropWhile:
  "dropWhile js_whitespace s =
     trim s @ rev (takeWhile js_whitespace (rev (dropWhile js_whitespace s)))"
  unfolding trim_def by (rule rev_dropWhile_takeWhile [symmetric])

lemma trim_decompose:
  "s = takeWhile js_whitespace s @ trim s @
       rev (takeWhile js_whitespace (rev (dropWhile js_whitespace s)))"
proof -
  have "s = takeWhile js_whitespace s @ dropWhile js_whitespace s"
    by simp
  then show ?thesis
    using trim_dropWhile [of s] by metis
qed

lemma trim_last: "trim s \<noteq> [] \<Longrightarrow> \<not> js_whitespace (last (trim s))"
  by (simp add: trim_def last_rev hd_dropWhile)

lemma trim_hd: "trim s \<noteq> [] \<Longrightarrow> \<not> js_whitespace (hd (trim s))"
proof -
  assume ne: "trim s \<noteq> []"
  let ?t = "dropWhile js_whitespace s"
  have "hd ?t = hd (trim s)"
    using ne trim_dropWhile [of s] by (metis hd_append2)
  moreover have "?t \<noteq> []"
    using ne trim_dropWhile [of s] by (metis append_is_Nil_conv)
  ultimately show ?thesis
    by (metis hd_dropWhile)
qed


section \<open>Query page: the submit handler\<close>


lemma sendQuery_submit_Some:
  assumes "sendQuery_submit st = (st', Some rq)"
  shows "trim (input st) \<noteq> []" and "\<not> loading st"
    and "rq = \<lparr> query = trim (input st), top_k = 5 \<rparr>"
    and "st' = st\<lparr> input := [],
                    messages := messages st @
                      [\<lparr> role = ''user'', content = trim (input st), citations = None \<rparr>],
                    loading := True \<rparr>"
  using assms by (auto simp: sendQuery_submit_def Let_def split: if_splits)



text \<open>
  C2. Every request the query page posts carries the input trimmed of surrounding white
  space (the input is that text between two runs of white space, and the text itself is not
  empty and neither starts nor ends with white space) and \<open>top_k = 5\<close>.
\<close>

theorem sendQuery_request_payload:
  assumes "sendQuery_submit st = (st', Some rq)"
  shows "query rq = trim (input st) \<and> top_k rq = 5 \<and>
         (\<exists>pre post. input st = pre @ query rq @ post \<and>
            list_all js_whitespace pre \<and> list_all js_whitespace post) \<and>
         query rq \<noteq> [] \<and> \<not> js_whitespace (hd (query rq)) \<and> \<not> js_whitespace (last (query rq))"
proof -
  have ne: "trim (input st) \<noteq> []" and rq: "rq = \<lparr> query = trim (input st), top_k = 5 \<rparr>"
    using sendQuery_submit_Some [OF assms] by blast+
  let ?pre = "takeWhile js_whitespace (input st)"
  let ?post = "rev (takeWhile js_whitespace (rev (dropWhile js_whitespace (input st))))"
  have "input st = ?pre @ trim (input st) @ ?post"
    by (rule trim_decompose)
  moreover have "list_all js_whitespace ?pre"
    by (simp add: list_all_iff) (metis set_takeWhileD)
  moreover have "list_all js_whitespace ?post"
    by (simp add: list_all_iff) (metis set_takeWhileD)
  ultimately have "\<exists>pre post. input st = pre @ trim (input st) @ post \<and>
      list_all js_whitespace pre \<and> list_all js_whitespace post"
    by blast
  then show ?thesis
    using ne rq trim_hd [OF ne] trim_last [OF ne] by simp
qed

theorem sendQuery_request_payload_witness:
  "sendQuery_submit \<lparr> messages = [], input = '' what is new  '', loading = False \<rparr> =
     (\<lparr> messages = [\<lparr> role = ''user'', content = ''what is new'', citations = None \<rparr>],
        input = [], loading = True \<rparr>,
      Some \<lparr> query = ''what is new'', top_k = 5 \<rparr>) \<and>
   query \<lparr> query = ''what is new'', top_k = 5 \<rparr> =
     trim (input \<lparr> messages = [], input = '' what is new  '', loading = False \<rparr>) \<and>
   top_k \<lparr> query = ''what is new'', top_k = 5 \<rparr> = 5"
proof -
  let ?st = "\<lparr> messages = [], input = '' what is new  '', loading = False \<rparr>"
  have run: "sendQuery_submit ?st =
     (\<lparr> messages = [\<lparr> role = ''user'', content = ''what is new'', citations = None \<rparr>],
        input = [], loading = True \<rparr>,
      Some \<lparr> query = ''what is new'', top_k = 5 \<rparr>)"
    by (simp add: sendQuery_submit_def Let_def trim_def js_whitespace_def)
  show ?thesis
    using run sendQuery_request_payload [OF run] by simp
qed

text \<open>
  C1. When the posted request fails, the chat gains exactly one assistant message with the
  fixed text and without a citations field, whatever the error was; its bubble shows that text
  and no reference block.
\<close>

theorem sendQuery_failure_message:
  assumes "sendQuery_submit st = (st1, Some rq)" and "api rq = Inl err"
  shows "sendQuery api st =
           (st1\<lparr> messages := messages st1 @
                   [\<lparr> role = ''assistant'',
                      content = ''System error: Unable to process query. Please try again.'',
                      citations = None \<rparr>],
                 loading := False \<rparr>,
            [ToastError ''Query failed'']) \<and>
         messages (fst (sendQuery api st)) =
           messages st @
             [\<lparr> role = ''user'', content = trim (input st), citations = None \<rparr>,
              \<lparr> role = ''assistant'',
                content = ''System error: Unable to process query. Please try again.'',
                citations = None \<rparr>] \<and>
         MessageBubble digits opened (last (messages (fst (sendQuery api st)))) =
           \<lparr> bubble_is_user = False, bubble_header = True,
             bubble_text = ''System error: Unable to process query. Please try again.'',
             bubble_references = None \<rparr>"
proof -
  have run: "sendQuery api st =
      (st1\<lparr> messages := messages st1 @
              [\<lparr> role = ''assistant'', content = query_error_text, citations = None \<rparr>],
            loading := False \<rparr>,
       [ToastError ''Query failed''])"
    using assms by (simp add: sendQuery_def sendQuery_settle_def)
  have st1: "messages st1 =
      messages st @ [\<lparr> role = ''user'', content = trim (input st), citations = None \<rparr>]"
    using sendQuery_submit_Some(4) [OF assms(1)] by simp
  show ?thesis
    unfolding run using st1 by (simp add: query_error_text_def MessageBubble_def)
qed

theorem sendQuery_failure_message_witness:
  "sendQuery_submit \<lparr> messages = [], input = ''why?'', loading = False \<rparr> =
     (\<lparr> messages = [\<lparr> role = ''user'', content = ''why?'', citations = None \<rparr>],
        input = [], loading = True \<rparr>,
      Some \<lparr> query = ''why?'', top_k = 5 \<rparr>) \<and>
   sendQuery (\<lambda>rq. Inl \<lparr> status = Some 500, detail = Some ''Internal Server Error'' \<rparr>)
       \<lparr> messages = [], input = ''why?'', loading = False \<rparr> =
     (\<lparr> messages =
          [\<lparr> role = ''user'', content = ''why?'', citations = None \<rparr>,
           \<lparr> role = ''assistant'',
             content = ''System error: Unable to process query. Please try again.'',
             citations = None \<rparr>],
        input = [], loading = False \<rparr>,
      [ToastError ''Query failed''])"
proof -
  let ?st = "\<lparr> messages = [], input = ''why?'', loading = False \<rparr>"
  let ?api = "\<lambda>rq :: query_request.
     (Inl \<lparr> status = Some 500, detail = Some ''Internal Server Error'' \<rparr>
        :: api_error + query_response)"
  have sub: "sendQuery_submit ?st =
     (\<lparr> messages = [\<lparr> role = ''user'', content = ''why?'', citations = None \<rparr>],
        input = [], loading = True \<rparr>,
      Some \<lparr> query = ''why?'', top_k = 5 \<rparr>)"
    by (simp add: sendQuery_submit_def Let_def trim_def js_whitespace_def)
  have api: "?api \<lparr> query = ''why?'', top_k = 5 \<rparr> =
       Inl \<lparr> status = Some 500, detail = Some ''Internal Server Error'' \<rparr>"
    by simp
  show ?thesis
    using sub sendQuery_failure_message [of ?st _ _ ?api, OF sub api] by simp
qed

section \<open>Query page: rendering a response\<close>

lemma CitationCard_shows:
  "card_title (CitationCard digits opn c) =
     ''['' @ Number_toString digits (c_index c) @ ''] '' @ c_filename c"
  "truthy_number (c_page_number c) \<Longrightarrow>
     prefix (''Page '' @ Number_toString digits (the (c_page_number c)))
       (card_detail (CitationCard digits opn c))"
  "truthy_string (c_timestamp c) \<Longrightarrow>
     sublist ('' '' @ the (c_timestamp c)) (card_detail (CitationCard digits opn c))"
  "truthy_number (c_score c) \<Longrightarrow>
     suffix ('' // Score: '' @ Number_toString digits (the (c_score c)))
       (card_detail (CitationCard digits opn c))"
  "opn \<Longrightarrow> card_content (CitationCard digits opn c) = Some (c_text_preview c)"
proof -
  show "card_title (CitationCard digits opn c) =
     ''['' @ Number_toString digits (c_index c) @ ''] '' @ c_filename c"
    by (simp add: CitationCard_def)
  show "opn \<Longrightarrow> card_content (CitationCard digits opn c) = Some (c_text_preview c)"
    by (simp add: CitationCard_def)
  show "truthy_number (c_page_number c) \<Longrightarrow>
     prefix (''Page '' @ Number_toString digits (the (c_page_number c)))
       (card_detail (CitationCard digits opn c))"
    by (simp add: CitationCard_def)
  show "truthy_number (c_score c) \<Longrightarrow>
     suffix ('' // Score: '' @ Number_toString digits (the (c_score c)))
       (card_detail (CitationCard digits opn c))"
    by (simp add: CitationCard_def suffix_def)
  show "truthy_string (c_timestamp c) \<Longrightarrow>
     sublist ('' '' @ the (c_timestamp c)) (card_detail (CitationCard digits opn c))"
  proof -
    assume ts: "truthy_string (c_timestamp c)"
    let ?page = "if truthy_number (c_page_number c)
          then ''Page '' @ Number_toString digits (the (c_page_number c)) else []"
    let ?score = "if truthy_number (c_score c)
          then '' // Score: '' @ Number_toString digits (the (c_score c)) else []"
    have "card_detail (CitationCard digits opn c) =
        ?page @ ('' '' @ the (c_timestamp c)) @ ?score"
      using ts by (simp add: CitationCard_def)
    then show ?thesis
      unfolding sublist_def by blast
  qed
qed

lemma MessageBubble_references:
  assumes "citations m = Some cs" and "cs \<noteq> []"
  shows "\<exists>cards. bubble_references (MessageBubble digits opened m) = Some cards \<and>
           length cards = length cs \<and>
           (\<forall>i < length cs. cards ! i = CitationCard digits (opened i) (cs ! i))"
  using assms by (simp add: MessageBubble_def Let_def nth_enumerate_eq)

text \<open>
  C3 (as amended). For a resolved request the chat gains one assistant message whose content
  is the answer of the response; its bubble shows the answer and, when the citation list is not
  empty, one card per citation in the order of the list. A card shows the index and the file
  name of its citation; it shows the page number, the time stamp and the score whenever that
  field is truthy, and the text preview while the card is open.
\<close>

theorem response_rendering:
  "\<exists>m. messages (fst (sendQuery_settle (Inr res) st)) = messages st @ [m] \<and>
       role m = ''assistant'' \<and> content m = answer res \<and>
       bubble_text (MessageBubble digits opened m) = answer res \<and>
       (res_citations res \<noteq> [] \<longrightarrow>
         (\<exists>cards. bubble_references (MessageBubble digits opened m) = Some cards \<and>
            length cards = length (res_citations res) \<and>
            (\<forall>i < length (res_citations res).
               cards ! i = CitationCard digits (opened i) (res_citations res ! i) \<and>
               card_title (cards ! i) =
                 ''['' @ Number_toString digits (c_index (res_citations res ! i)) @ ''] '' @
                 c_filename (res_citations res ! i) \<and>
               (truthy_number (c_page_number (res_citations res ! i)) \<longrightarrow>
                  prefix (''Page '' @
                      Number_toString digits (the (c_page_number (res_citations res ! i))))
                    (card_detail (cards ! i))) \<and>
               (truthy_string (c_timestamp (res_citations res ! i)) \<longrightarrow>
                  sublist ('' '' @ the (c_timestamp (res_citations res ! i)))
                    (card_detail (cards ! i))) \<and>
               (truthy_number (c_score (res_citations res ! i)) \<longrightarrow>
                  suffix ('' // Score: '' @
                      Number_toString digits (the (c_score (res_citations res ! i))))
                    (card_detail (cards ! i))) \<and>
               (opened i \<longrightarrow>
                  card_content (cards ! i) = Some (c_text_preview (res_citations res ! i))))))"
proof -
  let ?m = "\<lparr> role = ''assistant'', content = answer res,
              citations = Some (res_citations res) \<rparr>"
  have msgs: "messages (fst (sendQuery_settle (Inr res) st)) = messages st @ [?m]"
    by (simp add: sendQuery_settle_def)
  have shown: "bubble_text (MessageBubble digits opened ?m) = answer res"
    by (simp add: MessageBubble_def)
  have cards: "\<exists>cards. bubble_references (MessageBubble digits opened ?m) = Some cards \<and>
      length cards = length (res_citations res) \<and>
      (\<forall>i < length (res_citations res).
         cards ! i = CitationCard digits (opened i) (res_citations res ! i))"
    if "res_citations res \<noteq> []"
    using MessageBubble_references [of ?m "res_citations res", OF _ that] by simp
  show ?thesis
  proof (intro exI [of _ ?m] conjI impI)
    assume ne: "res_citations res \<noteq> []"
    from cards [OF ne] obtain cards where
      c: "bubble_references (MessageBubble digits opened ?m) = Some cards"
        "length cards = length (res_citations res)"
        "\<forall>i < length (res_citations res).
           cards ! i = CitationCard digits (opened i) (res_citations res ! i)"
      by blast
    show "\<exists>cards. bubble_references (MessageBubble digits opened ?m) = Some cards \<and>
            length cards = length (res_citations res) \<and>
            (\<forall>i < length (res_citations res).
               cards ! i = CitationCard digits (opened i) (res_citations res ! i) \<and>
               card_title (cards ! i) =
                 ''['' @ Number_toString digits (c_index (res_citations res ! i)) @ ''] '' @
                 c_filename (res_citations res ! i) \<and>
               (truthy_number (c_page_number (res_citations res ! i)) \<longrightarrow>
                  prefix (''Page '' @
                      Number_toString digits (the (c_page_number (res_citations res ! i))))
                    (card_detail (cards ! i))) \<and>
               (truthy_string (c_timestamp (res_citations res ! i)) \<longrightarrow>
                  sublist ('' '' @ the (c_timestamp (res_citations res ! i)))
                    (card_detail (cards ! i))) \<and>
               (truthy_number (c_score (res_citations res ! i)) \<longrightarrow>
                  suffix ('' // Score: '' @
                      Number_toString digits (the (c_score (res_citations res ! i))))
                    (card_detail (cards ! i))) \<and>
               (opened i \<longrightarrow>
                  card_content (cards ! i) = Some (c_text_preview (res_citations res ! i))))"
    proof (intro exI [of _ cards] conjI allI impI)
      fix i assume i: "i < length (res_citations res)"
      then show eq: "cards ! i = CitationCard digits (opened i) (res_citations res ! i)"
        using c(3) by blast
      show "card_title (cards ! i) =
                 ''['' @ Number_toString digits (c_index (res_citations res ! i)) @ ''] '' @
                 c_filename (res_citations res ! i)"
        unfolding eq by (rule CitationCard_shows(1))
      show "prefix (''Page '' @
                      Number_toString digits (the (c_page_number (res_citations res ! i))))
                    (card_detail (cards ! i))"
        if "truthy_number (c_page_number (res_citations res ! i))"
        unfolding eq using that by (rule CitationCard_shows(2))
      show "sublist ('' '' @ the (c_timestamp (res_citations res ! i)))
                    (card_detail (cards ! i))"
        if "truthy_string (c_timestamp (res_citations res ! i))"
        unfolding eq using that by (rule CitationCard_shows(3))
      show "suffix ('' // Score: '' @
                      Number_toString digits (the (c_score (res_citations res ! i))))
                    (card_detail (cards ! i))"
        if "truthy_number (c_score (res_citations res ! i))"
        unfolding eq using that by (rule CitationCard_shows(4))
      show "card_content (cards ! i) = Some (c_text_preview (res_citations res ! i))"
        if "opened i"
        unfolding eq using that by (rule CitationCard_shows(5))
    qed (rule c(1), rule c(2))
  qed (simp_all add: msgs shown)
qed


theorem response_rendering_witness:
  "res_citations
     \<lparr> answer = ''Alpha is defined on page 3 [1][2].'',
       res_citations =
         [\<lparr> c_index = 1, c_filename = ''a.pdf'', c_file_type = Some ''pdf'', c_score = Some 2,
             c_page_number = Some 3, c_timestamp = None, c_text_preview = ''alpha'' \<rparr>,
          \<lparr> c_index = 2, c_filename = ''b.mp3'', c_file_type = Some ''audio'', c_score = Some 1,
             c_page_number = None, c_timestamp = Some ''00:01:05'',
             c_text_preview = ''beta'' \<rparr>] \<rparr> \<noteq> [] \<and>
   (\<exists>m cards.
      messages (fst (sendQuery_settle
        (Inr \<lparr> answer = ''Alpha is defined on page 3 [1][2].'',
          res_citations =
            [\<lparr> c_index = 1, c_filename = ''a.pdf'', c_file_type = Some ''pdf'',
                c_score = Some 2, c_page_number = Some 3, c_timestamp = None,
                c_text_preview = ''alpha'' \<rparr>,
             \<lparr> c_index = 2, c_filename = ''b.mp3'', c_file_type = Some ''audio'',
                c_score = Some 1, c_page_number = None, c_timestamp = Some ''00:01:05'',
                c_text_preview = ''beta'' \<rparr>] \<rparr>)
        \<lparr> messages = [], input = [], loading = True \<rparr>)) = [m] \<and>
      bubble_text (MessageBubble integer_digits (\<lambda>i. i = 0) m) =
        ''Alpha is defined on page 3 [1][2].'' \<and>
      bubble_references (MessageBubble integer_digits (\<lambda>i. i = 0) m) = Some cards \<and>
      length cards = 2 \<and>
      card_title (cards ! 0) = ''[1] a.pdf'' \<and>
      prefix ''Page 3'' (card_detail (cards ! 0)) \<and>
      suffix '' // Score: 2'' (card_detail (cards ! 0)) \<and>
      card_content (cards ! 0) = Some ''alpha'' \<and>
      card_title (cards ! 1) = ''[2] b.mp3'' \<and>
      sublist '' 00:01:05'' (card_detail (cards ! 1)) \<and>
      suffix '' // Score: 1'' (card_detail (cards ! 1)))"
proof -
  let ?c1 = "\<lparr> c_index = 1, c_filename = ''a.pdf'', c_file_type = Some ''pdf'',
       c_score = Some 2, c_page_number = Some 3, c_timestamp = None,
       c_text_preview = ''alpha'' \<rparr>"
  let ?c2 = "\<lparr> c_index = 2, c_filename = ''b.mp3'', c_file_type = Some ''audio'',
       c_score = Some 1, c_page_number = None, c_timestamp = Some ''00:01:05'',
       c_text_preview = ''beta'' \<rparr>"
  let ?res = "\<lparr> answer = ''Alpha is defined on page 3 [1][2].'', res_citations = [?c1, ?c2] \<rparr>"
  let ?st = "\<lparr> messages = [], input = [], loading = True \<rparr>"
  let ?opened = "\<lambda>i :: nat. i = 0"
  have ne: "res_citations ?res \<noteq> []"
    by simp
  have n1: "Number_toString integer_digits 1 = ''1''"
    and n2: "Number_toString integer_digits 2 = ''2''"
    and n3: "Number_toString integer_digits 3 = ''3''"
    by code_simp+
  from response_rendering [of ?res ?st integer_digits ?opened] ne
  obtain m cards where
    m: "messages (fst (sendQuery_settle (Inr ?res) ?st)) = messages ?st @ [m]"
      "bubble_text (MessageBubble integer_digits ?opened m) = answer ?res"
      "bubble_references (MessageBubble integer_digits ?opened m) = Some cards"
      "length cards = length (res_citations ?res)"
    and each: "\<forall>i < length (res_citations ?res).
      cards ! i = CitationCard integer_digits (?opened i) (res_citations ?res ! i) \<and>
      card_title (cards ! i) =
        ''['' @ Number_toString integer_digits (c_index (res_citations ?res ! i)) @ ''] '' @
        c_filename (res_citations ?res ! i) \<and>
      (truthy_number (c_page_number (res_citations ?res ! i)) \<longrightarrow>
         prefix (''Page '' @
             Number_toString integer_digits (the (c_page_number (res_citations ?res ! i))))
           (card_detail (cards ! i))) \<and>
      (truthy_string (c_timestamp (res_citations ?res ! i)) \<longrightarrow>
         sublist ('' '' @ the (c_timestamp (res_citations ?res ! i)))
           (card_detail (cards ! i))) \<and>
      (truthy_number (c_score (res_citations ?res ! i)) \<longrightarrow>
         suffix ('' // Score: '' @
             Number_toString integer_digits (the (c_score (res_citations ?res ! i))))
           (card_detail (cards ! i))) \<and>
      (?opened i \<longrightarrow>
         card_content (cards ! i) = Some (c_text_preview (res_citations ?res ! i)))"
    by blast
  have first: "card_title (cards ! 0) = ''[1] a.pdf'' \<and>
      prefix ''Page 3'' (card_detail (cards ! 0)) \<and>
      suffix '' // Score: 2'' (card_detail (cards ! 0)) \<and>
      card_content (cards ! 0) = Some ''alpha''"
    using each [rule_format, of 0, THEN conjunct2] by (simp add: truthy_number_def n1 n2 n3)
  have second: "card_title (cards ! 1) = ''[2] b.mp3'' \<and>
      sublist '' 00:01:05'' (card_detail (cards ! 1)) \<and>
      suffix '' // Score: 1'' (card_detail (cards ! 1))"
    using each [rule_format, of 1, THEN conjunct2]
    by (simp add: truthy_number_def truthy_string_def n1 n2)
  show ?thesis
    using ne m first second by (intro conjI exI [of _ m] exI [of _ cards]) simp_all
qed


text \<open>
  C3 as first stated, that every card displays the score and the text preview of its
  citation, fails for a citation with score \<open>0\<close> on a card as mounted: the card shows
  \<open>[1] a.pdf\<close> and \<open>Page 3\<close>, and neither a score nor the preview.
\<close>

theorem response_rendering_counterexample:
  "bubble_references (MessageBubble integer_digits card_open_init
     (last (messages (fst (sendQuery_settle
        (Inr \<lparr> answer = ''Alpha is defined on page 3 [1].'',
          res_citations =
            [\<lparr> c_index = 1, c_filename = ''a.pdf'', c_file_type = Some ''pdf'',
                c_score = Some 0, c_page_number = Some 3, c_timestamp = None,
                c_text_preview = ''alpha'' \<rparr>] \<rparr>)
        \<lparr> messages = [], input = [], loading = True \<rparr>))))) =
   Some [\<lparr> card_testid = ''citation-1'', card_icon = FileText, card_title = ''[1] a.pdf'',
           card_detail = ''Page 3'', card_open = False, card_content = None \<rparr>]"
  by code_simp

section \<open>Documents page: search and deletion\<close>

lemma includes_str_sublist: "includes_str s t \<longleftrightarrow> sublist t s"
  by (induction s) (simp_all add: sublist_Cons_right)

lemma includes_str_empty: "includes_str s []"
  by (simp add: includes_str_sublist)

lemma matches_search_sublist:
  "matches_search srch d \<longleftrightarrow>
     sublist (toLowerCase srch) (toLowerCase (d_filename d)) \<or>
     sublist (toLowerCase srch) (toLowerCase (d_file_type d))"
  by (simp add: matches_search_def includes_str_sublist)

text \<open>
  C10. A document is kept in the filtered list exactly when the lower-cased search string
  occurs in its lower-cased file name or in its lower-cased file type; the kept documents
  stay in the order of the list; search strings that differ in case only filter alike; and
  with the empty search string the filtered list is the whole list.
\<close>

theorem filtered_case_insensitive_contains:
  "filtered st =
     filter (\<lambda>d. sublist (toLowerCase (search st)) (toLowerCase (d_filename d)) \<or>
                 sublist (toLowerCase (search st)) (toLowerCase (d_file_type d))) (docs st) \<and>
   (toLowerCase s' = toLowerCase (search st) \<longrightarrow> filtered (st\<lparr> search := s' \<rparr>) = filtered st) \<and>
   (search st = [] \<longrightarrow> filtered st = docs st)"
proof (intro conjI impI)
  show "filtered st =
     filter (\<lambda>d. sublist (toLowerCase (search st)) (toLowerCase (d_filename d)) \<or>
                 sublist (toLowerCase (search st)) (toLowerCase (d_file_type d))) (docs st)"
    unfolding filtered_def by (rule filter_cong) (simp_all add: matches_search_sublist)
  show "filtered (st\<lparr> search := s' \<rparr>) = filtered st"
    if "toLowerCase s' = toLowerCase (search st)"
  proof -
    have "matches_search s' = matches_search (search st)"
      using that by (simp add: matches_search_def fun_eq_iff)
    then show ?thesis
      by (simp add: filtered_def)
  qed
  show "filtered st = docs st" if "search st = []"
    using that by (simp add: filtered_def matches_search_def toLowerCase_def includes_str_empty)
qed

theorem filtered_case_insensitive_contains_witness:
  "search (\<lparr> docs = [\<lparr> d_id = ''d1'', d_filename = ''Report.PDF'', d_file_type = ''pdf'', d_file_size = 2048,
          d_total_chunks = 3, d_status = Some ''indexed'', d_uploaded_at = None \<rparr>,
        \<lparr> d_id = ''d2'', d_filename = ''talk.mp3'', d_file_type = ''audio'', d_file_size = 0,
          d_total_chunks = 1, d_status = Some ''indexed'', d_uploaded_at = None \<rparr>],
      docs_loading = False, search = [], deleting = None \<rparr>) = [] \<and>
   filtered (\<lparr> docs = [\<lparr> d_id = ''d1'', d_filename = ''Report.PDF'', d_file_type = ''pdf'', d_file_size = 2048,
          d_total_chunks = 3, d_status = Some ''indexed'', d_uploaded_at = None \<rparr>,
        \<lparr> d_id = ''d2'', d_filename = ''talk.mp3'', d_file_type = ''audio'', d_file_size = 0,
          d_total_chunks = 1, d_status = Some ''indexed'', d_uploaded_at = None \<rparr>],
      docs_loading = False, search = [], deleting = None \<rparr>) = docs (\<lparr> docs = [\<lparr> d_id = ''d1'', d_filename = ''Report.PDF'', d_file_type = ''pdf'', d_file_size = 2048,
          d_total_chunks = 3, d_status = Some ''indexed'', d_uploaded_at = None \<rparr>,
        \<lparr> d_id = ''d2'', d_filename = ''talk.mp3'', d_file_type = ''audio'', d_file_size = 0,
          d_total_chunks = 1, d_status = Some ''indexed'', d_uploaded_at = None \<rparr>],
      docs_loading = False, search = [], deleting = None \<rparr>) \<and>
   toLowerCase ''PDF'' = toLowerCase (search (\<lparr> docs = [\<lparr> d_id = ''d1'', d_filename = ''Report.PDF'', d_file_type = ''pdf'', d_file_size = 2048,
          d_total_chunks = 3, d_status = Some ''indexed'', d_uploaded_at = None \<rparr>,
        \<lparr> d_id = ''d2'', d_filename = ''talk.mp3'', d_file_type = ''audio'', d_file_size = 0,
          d_total_chunks = 1, d_status = Some ''indexed'', d_uploaded_at = None \<rparr>],
      docs_loading = False, search = ''pDf'', deleting = None \<rparr>)) \<and>
   filtered ((\<lparr> docs = [\<lparr> d_id = ''d1'', d_filename = ''Report.PDF'', d_file_type = ''pdf'', d_file_size = 2048,
          d_total_chunks = 3, d_status = Some ''indexed'', d_uploaded_at = None \<rparr>,
        \<lparr> d_id = ''d2'', d_filename = ''talk.mp3'', d_file_type = ''audio'', d_file_size = 0,
          d_total_chunks = 1, d_status = Some ''indexed'', d_uploaded_at = None \<rparr>],
      docs_loading = False, search = ''pDf'', deleting = None \<rparr>)\<lparr> search := ''PDF'' \<rparr>) = filtered (\<lparr> docs = [\<lparr> d_id = ''d1'', d_filename = ''Report.PDF'', d_file_type = ''pdf'', d_file_size = 2048,
          d_total_chunks = 3, d_status = Some ''indexed'', d_uploaded_at = None \<rparr>,
        \<lparr> d_id = ''d2'', d_filename = ''talk.mp3'', d_file_type = ''audio'', d_file_size = 0,
          d_total_chunks = 1, d_status = Some ''indexed'', d_uploaded_at = None \<rparr>],
      docs_loading = False, search = ''pDf'', deleting = None \<rparr>) \<and>
   filtered (\<lparr> docs = [\<lparr> d_id = ''d1'', d_filename = ''Report.PDF'', d_file_type = ''pdf'', d_file_size = 2048,
          d_total_chunks = 3, d_status = Some ''indexed'', d_uploaded_at = None \<rparr>,
        \<lparr> d_id = ''d2'', d_filename = ''talk.mp3'', d_file_type = ''audio'', d_file_size = 0,
          d_total_chunks = 1, d_status = Some ''indexed'', d_uploaded_at = None \<rparr>],
      docs_loading = False, search = ''pDf'', deleting = None \<rparr>) = [\<lparr> d_id = ''d1'', d_filename = ''Report.PDF'', d_file_type = ''pdf'', d_file_size = 2048,
          d_total_chunks = 3, d_status = Some ''indexed'', d_uploaded_at = None \<rparr>]"
proof -
  let ?st0 = "\<lparr> docs = [\<lparr> d_id = ''d1'', d_filename = ''Report.PDF'', d_file_type = ''pdf'', d_file_size = 2048,
          d_total_chunks = 3, d_status = Some ''indexed'', d_uploaded_at = None \<rparr>,
        \<lparr> d_id = ''d2'', d_filename = ''talk.mp3'', d_file_type = ''audio'', d_file_size = 0,
          d_total_chunks = 1, d_status = Some ''indexed'', d_uploaded_at = None \<rparr>],
      docs_loading = False, search = [], deleting = None \<rparr>"
  let ?st1 = "\<lparr> docs = [\<lparr> d_id = ''d1'', d_filename = ''Report.PDF'', d_file_type = ''pdf'', d_file_size = 2048,
          d_total_chunks = 3, d_status = Some ''indexed'', d_uploaded_at = None \<rparr>,
        \<lparr> d_id = ''d2'', d_filename = ''talk.mp3'', d_file_type = ''audio'', d_file_size = 0,
          d_total_chunks = 1, d_status = Some ''indexed'', d_uploaded_at = None \<rparr>],
      docs_loading = False, search = ''pDf'', deleting = None \<rparr>"
  have empty: "search ?st0 = []"
    by simp
  have same: "toLowerCase ''PDF'' = toLowerCase (search ?st1)"
    by code_simp
  have kept: "filtered ?st1 = [\<lparr> d_id = ''d1'', d_filename = ''Report.PDF'', d_file_type = ''pdf'', d_file_size = 2048,
          d_total_chunks = 3, d_status = Some ''indexed'', d_uploaded_at = None \<rparr>]"
    by code_simp
  have full: "filtered ?st0 = docs ?st0"
    using empty filtered_case_insensitive_contains [of ?st0] by blast
  have alike: "filtered (?st1\<lparr> search := ''PDF'' \<rparr>) = filtered ?st1"
    using same filtered_case_insensitive_contains [of ?st1 "''PDF''"] by blast
  show ?thesis
    by (intro conjI empty full same alike kept)
qed

text \<open>
  C4. A successful delete of \<open>doc\<close> leaves the list, and the rows shown for it, as they were
  with the entries of that id filtered out; a failed delete leaves both as they were. The same
  holds for the continuation alone, at whatever state the page is in when the request settles.
\<close>

theorem deleteDoc_list:
  "(api (d_id doc) = Inr ok \<longrightarrow>
      docs (fst (deleteDoc api doc st)) = filter (\<lambda>d. d_id d \<noteq> d_id doc) (docs st) \<and>
      filtered (fst (deleteDoc api doc st)) = filter (\<lambda>d. d_id d \<noteq> d_id doc) (filtered st)) \<and>
   (api (d_id doc) = Inl err \<longrightarrow>
      docs (fst (deleteDoc api doc st)) = docs st \<and>
      filtered (fst (deleteDoc api doc st)) = filtered st) \<and>
   docs (fst (deleteDoc_settle (Inr ok) doc st)) = filter (\<lambda>d. d_id d \<noteq> d_id doc) (docs st) \<and>
   filtered (fst (deleteDoc_settle (Inr ok) doc st)) =
     filter (\<lambda>d. d_id d \<noteq> d_id doc) (filtered st) \<and>
   docs (fst (deleteDoc_settle (Inl err) doc st)) = docs st \<and>
   filtered (fst (deleteDoc_settle (Inl err) doc st)) = filtered st"
proof -
  show ?thesis
    by (auto simp: deleteDoc_def deleteDoc_submit_def deleteDoc_settle_def filtered_def
        conj_commute)
qed


theorem deleteDoc_list_witness:
  "(\<lambda>i. Inr ()) (d_id (\<lparr> d_id = ''d1'', d_filename = ''Report.PDF'', d_file_type = ''pdf'', d_file_size = 2048,
          d_total_chunks = 3, d_status = Some ''indexed'', d_uploaded_at = None \<rparr>)) = (Inr () :: api_error + unit) \<and>
   docs (fst (deleteDoc (\<lambda>i. Inr ()) (\<lparr> d_id = ''d1'', d_filename = ''Report.PDF'', d_file_type = ''pdf'', d_file_size = 2048,
          d_total_chunks = 3, d_status = Some ''indexed'', d_uploaded_at = None \<rparr>) (\<lparr> docs = [\<lparr> d_id = ''d1'', d_filename = ''Report.PDF'', d_file_type = ''pdf'', d_file_size = 2048,
          d_total_chunks = 3, d_status = Some ''indexed'', d_uploaded_at = None \<rparr>,
        \<lparr> d_id = ''d2'', d_filename = ''talk.mp3'', d_file_type = ''audio'', d_file_size = 0,
          d_total_chunks = 1, d_status = Some ''indexed'', d_uploaded_at = None \<rparr>],
      docs_loading = False, search = [], deleting = None \<rparr>))) = [\<lparr> d_id = ''d2'', d_filename = ''talk.mp3'', d_file_type = ''audio'', d_file_size = 0,
          d_total_chunks = 1, d_status = Some ''indexed'', d_uploaded_at = None \<rparr>] \<and>
   filtered (fst (deleteDoc (\<lambda>i. Inr ()) (\<lparr> d_id = ''d1'', d_filename = ''Report.PDF'', d_file_type = ''pdf'', d_file_size = 2048,
          d_total_chunks = 3, d_status = Some ''indexed'', d_uploaded_at = None \<rparr>) (\<lparr> docs = [\<lparr> d_id = ''d1'', d_filename = ''Report.PDF'', d_file_type = ''pdf'', d_file_size = 2048,
          d_total_chunks = 3, d_status = Some ''indexed'', d_uploaded_at = None \<rparr>,
        \<lparr> d_id = ''d2'', d_filename = ''talk.mp3'', d_file_type = ''audio'', d_file_size = 0,
          d_total_chunks = 1, d_status = Some ''indexed'', d_uploaded_at = None \<rparr>],
      docs_loading = False, search = [], deleting = None \<rparr>))) = [\<lparr> d_id = ''d2'', d_filename = ''talk.mp3'', d_file_type = ''audio'', d_file_size = 0,
          d_total_chunks = 1, d_status = Some ''indexed'', d_uploaded_at = None \<rparr>] \<and>
   (\<lambda>i. Inl \<lparr> status = Some 404, detail = None \<rparr>) (d_id (\<lparr> d_id = ''d1'', d_filename = ''Report.PDF'', d_file_type = ''pdf'', d_file_size = 2048,
          d_total_chunks = 3, d_status = Some ''indexed'', d_uploaded_at = None \<rparr>)) =
     (Inl \<lparr> status = Some 404, detail = None \<rparr> :: api_error + unit) \<and>
   docs (fst (deleteDoc (\<lambda>i. Inl \<lparr> status = Some 404, detail = None \<rparr>) (\<lparr> d_id = ''d1'', d_filename = ''Report.PDF'', d_file_type = ''pdf'', d_file_size = 2048,
          d_total_chunks = 3, d_status = Some ''indexed'', d_uploaded_at = None \<rparr>) (\<lparr> docs = [\<lparr> d_id = ''d1'', d_filename = ''Report.PDF'', d_file_type = ''pdf'', d_file_size = 2048,
          d_total_chunks = 3, d_status = Some ''indexed'', d_uploaded_at = None \<rparr>,
        \<lparr> d_id = ''d2'', d_filename = ''talk.mp3'', d_file_type = ''audio'', d_file_size = 0,
          d_total_chunks = 1, d_status = Some ''indexed'', d_uploaded_at = None \<rparr>],
      docs_loading = False, search = [], deleting = None \<rparr>))) =
     docs (\<lparr> docs = [\<lparr> d_id = ''d1'', d_filename = ''Report.PDF'', d_file_type = ''pdf'', d_file_size = 2048,
          d_total_chunks = 3, d_status = Some ''indexed'', d_uploaded_at = None \<rparr>,
        \<lparr> d_id = ''d2'', d_filename = ''talk.mp3'', d_file_type = ''audio'', d_file_size = 0,
          d_total_chunks = 1, d_status = Some ''indexed'', d_uploaded_at = None \<rparr>],
      docs_loading = False, search = [], deleting = None \<rparr>)"
proof -
  let ?d1 = "\<lparr> d_id = ''d1'', d_filename = ''Report.PDF'', d_file_type = ''pdf'', d_file_size = 2048,
          d_total_chunks = 3, d_status = Some ''indexed'', d_uploaded_at = None \<rparr>"
  let ?st = "\<lparr> docs = [\<lparr> d_id = ''d1'', d_filename = ''Report.PDF'', d_file_type = ''pdf'', d_file_size = 2048,
          d_total_chunks = 3, d_status = Some ''indexed'', d_uploaded_at = None \<rparr>,
        \<lparr> d_id = ''d2'', d_filename = ''talk.mp3'', d_file_type = ''audio'', d_file_size = 0,
          d_total_chunks = 1, d_status = Some ''indexed'', d_uploaded_at = None \<rparr>],
      docs_loading = False, search = [], deleting = None \<rparr>"
  let ?ok = "\<lambda>i :: string. (Inr () :: api_error + unit)"
  let ?err = "\<lparr> status = Some 404, detail = None \<rparr>"
  let ?fail = "\<lambda>i :: string. (Inl ?err :: api_error + unit)"
  have ok: "?ok (d_id ?d1) = Inr ()" and fail: "?fail (d_id ?d1) = Inl ?err"
    by simp_all
  have all: "filtered ?st = docs ?st"
    by (simp add: filtered_def matches_search_def toLowerCase_def includes_str_empty)
  show ?thesis
    using ok fail all deleteDoc_list [of ?ok ?d1 "()" ?st ?err]
      deleteDoc_list [of ?fail ?d1 "()" ?st ?err]
    by simp
qed

section \<open>Upload page: file sizes and file types\<close>

text \<open>
  C9. The \<open>formatSize\<close> of the upload page and the one of the documents page return the
  same string for every number of bytes, so for every non-negative finite one: they differ
  in the guard \<^verbatim>\<open>!bytes\<close> only, which fires at zero, where the other prints \<open>0 B\<close> as well.
\<close>

theorem formatSize_agree:
  "formatSize_upload digits fixed1 bytes = formatSize_documents digits fixed1 bytes"
  by (simp add: formatSize_upload_def formatSize_documents_def Number_toString_def)

theorem formatSize_agree_witness:
  "formatSize_upload integer_digits (\<lambda>x. integer_digits x @ ''.0'') 0 = ''0 B'' \<and>
   formatSize_documents integer_digits (\<lambda>x. integer_digits x @ ''.0'') 0 = ''0 B'' \<and>
   formatSize_documents integer_digits (\<lambda>x. integer_digits x @ ''.0'') 512 = ''512 B'' \<and>
   formatSize_documents integer_digits (\<lambda>x. integer_digits x @ ''.0'') 2048 = ''2.0 KB'' \<and>
   formatSize_documents integer_digits (\<lambda>x. integer_digits x @ ''.0'') 3145728 = ''3.0 MB''"
proof -
  let ?fixed1 = "\<lambda>x. integer_digits x @ ''.0''"
  have "formatSize_upload integer_digits ?fixed1 0 = ''0 B''"
    and "formatSize_upload integer_digits ?fixed1 512 = ''512 B''"
    and "formatSize_upload integer_digits ?fixed1 2048 = ''2.0 KB''"
    and "formatSize_upload integer_digits ?fixed1 3145728 = ''3.0 MB''"
    by code_simp+
  then show ?thesis
    using formatSize_agree [of integer_digits ?fixed1] by simp
qed

lemma split_acc_not_Nil: "split_acc sep cur s \<noteq> []"
  by (induction s arbitrary: cur) simp_all

lemma split_acc_single: "sep \<notin> set s \<Longrightarrow> split_acc sep cur s = [cur @ s]"
  by (induction s arbitrary: cur) auto

lemma split_acc_last_no_sep:
  "sep \<notin> set cur \<Longrightarrow> sep \<notin> set (last (split_acc sep cur s))"
proof (induction s arbitrary: cur)
  case Nil
  then show ?case by simp
next
  case (Cons c s)
  show ?case
    using Cons.IH [of "[]"] Cons.IH [of "cur @ [c]"] Cons.prems
    by (auto simp: split_acc_not_Nil)
qed

lemma split_acc_last_after_sep:
  "sep \<in> set s \<Longrightarrow> \<exists>stem. cur @ s = stem @ sep # last (split_acc sep cur s)"
proof (induction s arbitrary: cur)
  case Nil
  then show ?case by simp
next
  case (Cons c s)
  show ?case
  proof (cases "c = sep")
    case True
    note c = this
    show ?thesis
    proof (cases "sep \<in> set s")
      case True
      define ext where "ext = last (split_acc sep [] s)"
      from True obtain stem where "s = stem @ sep # ext"
        using Cons.IH [of "[]"] unfolding ext_def by auto
      then have "cur @ c # s = (cur @ c # stem) @ sep # ext"
        by simp
      then have "\<exists>stem. cur @ c # s = stem @ sep # ext"
        by blast
      moreover have "last (split_acc sep cur (c # s)) = ext"
        using c by (simp add: split_acc_not_Nil ext_def)
      ultimately show ?thesis
        by simp
    next
      case False
      then show ?thesis
        using c by (simp add: split_acc_single)
    qed
  next
    case False
    then have "sep \<in> set s"
      using Cons.prems by auto
    then show ?thesis
      using Cons.IH [of "cur @ [c]"] False by simp
  qed
qed

lemma extension_cases:
  "((sep \<notin> set s \<and> last (split sep s) = s) \<or> (\<exists>stem. s = stem @ sep # last (split sep s))) \<and>
   sep \<notin> set (last (split sep s))"
proof (cases "sep \<in> set s")
  case True
  then show ?thesis
    using split_acc_last_after_sep [of sep s "[]"] split_acc_last_no_sep [of sep "[]" s]
    by (simp add: split_def)
next
  case False
  then show ?thesis
    by (simp add: split_def split_acc_single)
qed

text \<open>
  C6 (as amended). The type given to a file is a function of its name alone, through the
  lower-cased extension: the text after the last dot, or the whole name when it has no dot.
  It is \<open>pdf\<close>, \<open>docx\<close>, \<open>image\<close> or \<open>audio\<close> exactly for the fourteen listed extensions and
  \<open>unknown\<close> for every other one; names whose extensions differ in case only get the same
  type; and every file offered to \<open>handleFiles\<close> is queued with that type.
\<close>

theorem getFileType_classification:
  "getFileType name \<in> set [''pdf'', ''docx'', ''image'', ''audio'', ''unknown''] \<and>
   (getFileType name = ''pdf'' \<longleftrightarrow>
      toLowerCase (last (split (CHR ''.'') name)) \<in> set [''pdf'']) \<and>
   (getFileType name = ''docx'' \<longleftrightarrow>
      toLowerCase (last (split (CHR ''.'') name)) \<in> set [''docx'', ''doc'']) \<and>
   (getFileType name = ''image'' \<longleftrightarrow>
      toLowerCase (last (split (CHR ''.'') name)) \<in>
        set [''png'', ''jpg'', ''jpeg'', ''gif'', ''bmp'', ''webp'']) \<and>
   (getFileType name = ''audio'' \<longleftrightarrow>
      toLowerCase (last (split (CHR ''.'') name)) \<in>
        set [''mp3'', ''wav'', ''ogg'', ''m4a'', ''flac'']) \<and>
   (toLowerCase (last (split (CHR ''.'') name')) = toLowerCase (last (split (CHR ''.'') name)) \<longrightarrow>
      getFileType name' = getFileType name) \<and>
   ((CHR ''.'' \<notin> set name \<and> last (split (CHR ''.'') name) = name) \<or>
    (\<exists>stem. name = stem @ CHR ''.'' # last (split (CHR ''.'') name))) \<and>
   CHR ''.'' \<notin> set (last (split (CHR ''.'') name)) \<and>
   files (handleFiles newFiles st) =
     files st @ map (\<lambda>(i, n, sz). \<lparr> f_id = i, f_name = n, f_size = sz, f_type = getFileType n \<rparr>)
       newFiles"
proof -
  define ext where "ext = toLowerCase (last (split (CHR ''.'') name))"
  have gft: "getFileType name =
     (if ext \<in> set [''pdf''] then ''pdf''
      else if ext \<in> set [''docx'', ''doc''] then ''docx''
      else if ext \<in> set [''png'', ''jpg'', ''jpeg'', ''gif'', ''bmp'', ''webp''] then ''image''
      else if ext \<in> set [''mp3'', ''wav'', ''ogg'', ''m4a'', ''flac''] then ''audio''
      else ''unknown'')"
    by (simp add: getFileType_def ext_def Let_def)
  have range: "getFileType name \<in> set [''pdf'', ''docx'', ''image'', ''audio'', ''unknown'']"
    unfolding gft by simp
  have pdf: "getFileType name = ''pdf'' \<longleftrightarrow> ext \<in> set [''pdf'']"
    unfolding gft by simp
  have docx: "getFileType name = ''docx'' \<longleftrightarrow> ext \<in> set [''docx'', ''doc'']"
    unfolding gft by auto
  have image: "getFileType name = ''image'' \<longleftrightarrow>
      ext \<in> set [''png'', ''jpg'', ''jpeg'', ''gif'', ''bmp'', ''webp'']"
    unfolding gft by auto
  have audio: "getFileType name = ''audio'' \<longleftrightarrow>
      ext \<in> set [''mp3'', ''wav'', ''ogg'', ''m4a'', ''flac'']"
    unfolding gft by auto
  have same: "getFileType name' = getFileType name"
    if "toLowerCase (last (split (CHR ''.'') name')) = toLowerCase (last (split (CHR ''.'') name))"
    using that by (simp add: getFileType_def)
  have queue: "files (handleFiles newFiles st) =
     files st @ map (\<lambda>(i, n, sz). \<lparr> f_id = i, f_name = n, f_size = sz, f_type = getFileType n \<rparr>)
       newFiles"
    by (simp add: handleFiles_def)
  show ?thesis
    using range pdf docx image audio same queue extension_cases [of "CHR ''.''" name]
    unfolding ext_def by blast
qed


theorem getFileType_classification_witness:
  "toLowerCase (last (split (CHR ''.'') ''b.jpg'')) =
     toLowerCase (last (split (CHR ''.'') ''a.tar.JPG'')) \<and>
   getFileType ''b.jpg'' = getFileType ''a.tar.JPG'' \<and>
   toLowerCase (last (split (CHR ''.'') ''a.tar.JPG'')) \<in>
     set [''png'', ''jpg'', ''jpeg'', ''gif'', ''bmp'', ''webp''] \<and>
   getFileType ''a.tar.JPG'' = ''image''"
proof -
  have same: "toLowerCase (last (split (CHR ''.'') ''b.jpg'')) =
      toLowerCase (last (split (CHR ''.'') ''a.tar.JPG''))"
    by code_simp
  have listed: "toLowerCase (last (split (CHR ''.'') ''a.tar.JPG'')) \<in>
      set [''png'', ''jpg'', ''jpeg'', ''gif'', ''bmp'', ''webp'']"
    by code_simp
  have alike: "getFileType ''b.jpg'' = getFileType ''a.tar.JPG''"
    using same getFileType_classification [of "''a.tar.JPG''" "''b.jpg''"] by blast
  have image: "getFileType ''a.tar.JPG'' = ''image''"
    using listed getFileType_classification [of "''a.tar.JPG''"] by blast
  show ?thesis
    by (intro conjI same alike listed image)
qed

text \<open>
  C6 as first stated, that every offered file gets one of the four modalities, fails
  for a dropped file \<open>notes.txt\<close>: it is queued with the type \<open>unknown\<close>.
\<close>

theorem getFileType_classification_counterexample:
  "map f_type (files (handleFiles [(''k3'', ''notes.txt'', 120)] upload_page_init)) =
     [''unknown''] \<and>
   ''unknown'' \<notin> set [''pdf'', ''docx'', ''image'', ''audio'']"
  by code_simp

section \<open>Upload page: the batch upload\<close>

lemma uploadFile_trace: "snd (uploadFile digits api f (st, tr)) = tr @ [Posted (f_id f), Settled (f_id f)]"
  by (simp add: uploadFile_def)

lemma uploadAll_loop_trace:
  "snd (foldl (\<lambda>acc f. uploadFile digits api f acc) (st, tr) fs) =
     tr @ concat (map (\<lambda>f. [Posted (f_id f), Settled (f_id f)]) fs)"
proof (induction fs arbitrary: st tr)
  case Nil
  then show ?case by simp
next
  case (Cons f fs)
  obtain st' tr' where step: "uploadFile digits api f (st, tr) = (st', tr')"
    by (cases "uploadFile digits api f (st, tr)")
  then have "tr' = tr @ [Posted (f_id f), Settled (f_id f)]"
    using uploadFile_trace [of digits api f st tr] by simp
  then show ?case
    using Cons.IH [of st' tr'] step by simp
qed

lemma peak_in_flight_sequential:
  "peak_in_flight 0 (concat (map (\<lambda>f. [Posted (f_id f), Settled (f_id f)]) fs)) \<le> 1"
  by (induction fs) simp_all

text \<open>
  C7 (as amended). \<open>uploadAll\<close> uploads the files that have no result yet strictly one after
  another, in queue order: the request for a file is posted only after the upload of the file
  before it has settled, so at no time is more than one upload of the batch in flight.
\<close>

theorem uploadAll_sequential:
  "snd (uploadAll digits api st) =
     concat (map (\<lambda>f. [Posted (f_id f), Settled (f_id f)]) (pending st)) \<and>
   peak_in_flight 0 (snd (uploadAll digits api st)) \<le> 1"
proof -
  have "snd (uploadAll digits api st) =
      concat (map (\<lambda>f. [Posted (f_id f), Settled (f_id f)]) (pending st))"
    unfolding uploadAll_def using uploadAll_loop_trace [of digits api st "[]" "pending st"]
    by simp
  then show ?thesis
    using peak_in_flight_sequential [of "pending st"] by simp
qed

theorem uploadAll_sequential_witness:
  "snd (uploadAll integer_digits backend_accepting
     (handleFiles [(''k1'', ''a.pdf'', 2048), (''k2'', ''b.mp3'', 4096)] upload_page_init)) =
     [Posted ''k1'', Settled ''k1'', Posted ''k2'', Settled ''k2''] \<and>
   peak_in_flight 0 (snd (uploadAll integer_digits backend_accepting
     (handleFiles [(''k1'', ''a.pdf'', 2048), (''k2'', ''b.mp3'', 4096)] upload_page_init))) \<le> 1"
proof -
  let ?st = "handleFiles [(''k1'', ''a.pdf'', 2048), (''k2'', ''b.mp3'', 4096)] upload_page_init"
  have "map f_id (pending ?st) = [''k1'', ''k2'']"
    by (simp add: pending_def handleFiles_def upload_page_init_def)
  then have "concat (map (\<lambda>f. [Posted (f_id f), Settled (f_id f)]) (pending ?st)) =
      [Posted ''k1'', Settled ''k1'', Posted ''k2'', Settled ''k2'']"
    by (auto simp: map_eq_Cons_conv)
  then show ?thesis
    using uploadAll_sequential [of integer_digits backend_accepting ?st] by simp
qed

text \<open>
  C7 as first stated, that a batch is not processed strictly one after another, fails
  for a batch of two files: the second upload is posted after the first has settled, and the
  largest number of uploads in flight is one.
\<close>

theorem uploadAll_sequential_counterexample:
  "snd (uploadAll integer_digits backend_accepting
     (handleFiles [(''k1'', ''a.pdf'', 2048), (''k2'', ''b.mp3'', 4096)] upload_page_init)) =
     [Posted ''k1'', Settled ''k1'', Posted ''k2'', Settled ''k2''] \<and>
   peak_in_flight 0 (snd (uploadAll integer_digits backend_accepting
     (handleFiles [(''k1'', ''a.pdf'', 2048), (''k2'', ''b.mp3'', 4096)] upload_page_init))) = 1"
  by code_simp

section \<open>Admin page: one rebuild at a time\<close>

lemma rebuild_inv_mount: "rebuild_inv (admin_mount adm)"
  by (simp add: rebuild_inv_def admin_mount_def admin_page_init_def fetchData_submit_def)

lemma rebuild_inv_step: "rebuild_inv w \<Longrightarrow> rebuild_inv (admin_step w e)"
proof (cases e)
  case ClickRebuild
  assume "rebuild_inv w"
  then show ?thesis
    using ClickRebuild
    by (simp add: rebuild_inv_def rebuild_button_disabled_def rebuildIndex_submit_def)
next
  case (RebuildSettled r)
  assume "rebuild_inv w"
  then show ?thesis
    using RebuildSettled
    by (simp add: rebuild_inv_def rebuildIndex_settle_def fetchData_submit_def
        split: if_splits)
next
  case (StaleRebuildSettled r)
  assume "rebuild_inv w"
  then show ?thesis
    using StaleRebuildSettled by (simp add: rebuild_inv_def rebuildIndex_settle_stale_def)
next
  case ClickRefresh
  assume "rebuild_inv w"
  then show ?thesis
    using ClickRefresh by (simp add: rebuild_inv_def fetchData_submit_def)
next
  case (FetchSettled r)
  assume "rebuild_inv w"
  then show ?thesis
    using FetchSettled
    by (simp add: rebuild_inv_def fetchData_settle_def split: sum.splits prod.splits)
next
  case (StaleFetchSettled r)
  assume "rebuild_inv w"
  then show ?thesis
    using StaleFetchSettled by (simp add: rebuild_inv_def fetchData_settle_stale_def)
next
  case (SelectTab t)
  assume "rebuild_inv w"
  then show ?thesis
    using SelectTab by (simp add: rebuild_inv_def)
next
  case Remount
  then show ?thesis
    by (simp add: rebuild_inv_def admin_remount_def admin_page_init_def fetchData_submit_def)
qed

lemma rebuild_inv_foldl: "rebuild_inv w \<Longrightarrow> rebuild_inv (foldl admin_step w es)"
  by (induction es arbitrary: w) (simp_all add: rebuild_inv_step)

lemma rebuild_inv_run: "rebuild_inv (admin_run adm es)"
  by (simp add: admin_run_def rebuild_inv_foldl rebuild_inv_mount)

lemma stale_rebuilds_step:
  "stale_rebuilds w = 0 \<Longrightarrow> e \<noteq> Remount \<Longrightarrow> stale_rebuilds (admin_step w e) = 0"
  by (cases e)
    (simp_all add: rebuildIndex_submit_def rebuildIndex_settle_def fetchData_submit_def
      fetchData_settle_def fetchData_settle_stale_def split: sum.splits prod.splits)

lemma stale_rebuilds_foldl:
  "stale_rebuilds w = 0 \<Longrightarrow> Remount \<notin> set es \<Longrightarrow> stale_rebuilds (foldl admin_step w es) = 0"
proof (induction es arbitrary: w)
  case Nil
  then show ?case by simp
next
  case (Cons e es)
  then have "e \<noteq> Remount" and "Remount \<notin> set es"
    by auto
  then show ?case
    using Cons.IH [of "admin_step w e"] stale_rebuilds_step [of w e] Cons.prems(1) by simp
qed

lemma stale_rebuilds_run: "Remount \<notin> set es \<Longrightarrow> stale_rebuilds (admin_run adm es) = 0"
  unfolding admin_run_def
  by (rule stale_rebuilds_foldl) (simp_all add: admin_mount_def fetchData_submit_def)

lemma disabled_while_mounted:
  assumes "rebuild_button_disabled w" and "\<And>r. e \<noteq> RebuildSettled r" and "e \<noteq> Remount"
  shows "rebuild_button_disabled (admin_step w e)"
  using assms
  by (cases e)
    (auto simp: rebuild_button_disabled_def fetchData_submit_def fetchData_settle_def
      rebuildIndex_settle_stale_def fetchData_settle_stale_def
      split: sum.splits prod.splits)

text \<open>
  C5 (as amended). In every state the admin page reaches, at most one rebuild request posted
  by the page as now mounted is in flight, and the rebuild button is disabled exactly while
  one is: a click then reaches no handler and changes nothing, the button stays disabled under
  every event other than the settling of that request and a remount, and is enabled again
  once the request has settled. A click that does post a rebuild request finds none of the
  mounted page in flight. As long as the page has not been remounted, no rebuild request is
  pending at all besides that one.
\<close>

theorem rebuild_one_per_mount:
  "rebuilds_in_flight (admin_run adm es) \<le> 1 \<and>
   (rebuild_button_disabled (admin_run adm es) \<longleftrightarrow> rebuilds_in_flight (admin_run adm es) = 1) \<and>
   (rebuilds_in_flight (admin_run adm es) = 1 \<longrightarrow>
      admin_step (admin_run adm es) ClickRebuild = admin_run adm es \<and>
      ((\<forall>r. e \<noteq> RebuildSettled r) \<and> e \<noteq> Remount \<longrightarrow>
         rebuild_button_disabled (admin_step (admin_run adm es) e)) \<and>
      \<not> rebuild_button_disabled (admin_step (admin_run adm es) (RebuildSettled r)) \<and>
      rebuilds_in_flight (admin_step (admin_run adm es) (RebuildSettled r)) = 0) \<and>
   (rebuilds_posted (admin_step (admin_run adm es) ClickRebuild) \<noteq>
      rebuilds_posted (admin_run adm es) \<longrightarrow>
      rebuilds_in_flight (admin_run adm es) = 0 \<and>
      rebuilds_in_flight (admin_step (admin_run adm es) ClickRebuild) = 1 \<and>
      rebuild_button_disabled (admin_step (admin_run adm es) ClickRebuild)) \<and>
   (Remount \<notin> set es \<longrightarrow>
      pending_rebuilds (admin_run adm es) = rebuilds_in_flight (admin_run adm es) \<and>
      pending_rebuilds (admin_run adm es) \<le> 1)"
proof -
  define w where "w = admin_run adm es"
  have inv: "rebuilds_in_flight w = (if rebuilding (page w) then 1 else 0)"
    using rebuild_inv_run [of adm es] by (simp add: rebuild_inv_def w_def)
  have le: "rebuilds_in_flight w \<le> 1"
    using inv by simp
  have dis: "rebuild_button_disabled w \<longleftrightarrow> rebuilds_in_flight w = 1"
    using inv by (simp add: rebuild_button_disabled_def)
  have noop: "admin_step w ClickRebuild = w" if "rebuilds_in_flight w = 1"
    using that dis by simp
  have stays: "rebuild_button_disabled (admin_step w e)"
    if "rebuilds_in_flight w = 1" and "(\<forall>r. e \<noteq> RebuildSettled r) \<and> e \<noteq> Remount"
    using that dis disabled_while_mounted [of w e] by blast
  have settled: "\<not> rebuild_button_disabled (admin_step w (RebuildSettled r)) \<and>
      rebuilds_in_flight (admin_step w (RebuildSettled r)) = 0"
    if "rebuilds_in_flight w = 1"
    using that
    by (simp add: rebuild_button_disabled_def rebuildIndex_settle_def fetchData_submit_def)
  have posts: "rebuilds_in_flight w = 0 \<and>
      rebuilds_in_flight (admin_step w ClickRebuild) = 1 \<and>
      rebuild_button_disabled (admin_step w ClickRebuild)"
    if "rebuilds_posted (admin_step w ClickRebuild) \<noteq> rebuilds_posted w"
    using that inv
    by (auto simp: rebuild_button_disabled_def rebuildIndex_submit_def split: if_splits)
  have alone: "pending_rebuilds w = rebuilds_in_flight w \<and> pending_rebuilds w \<le> 1"
    if "Remount \<notin> set es"
    using that le stale_rebuilds_run [of es adm] by (simp add: pending_rebuilds_def w_def)
  show ?thesis
    unfolding w_def [symmetric] using le dis noop stays settled posts alone by blast
qed

theorem rebuild_one_per_mount_witness:
  "rebuilds_in_flight (admin_run True [ClickRebuild, FetchSettled (Inl \<lparr> status = Some 403, detail = None \<rparr>),
       ClickRebuild] :: (unit, unit) admin_world) = 1 \<and>
   rebuilds_posted (admin_run True [ClickRebuild, FetchSettled (Inl \<lparr> status = Some 403, detail = None \<rparr>),
       ClickRebuild] :: (unit, unit) admin_world) = 1 \<and>
   rebuild_button_disabled (admin_run True [ClickRebuild, FetchSettled (Inl \<lparr> status = Some 403, detail = None \<rparr>),
       ClickRebuild] :: (unit, unit) admin_world) \<and>
   admin_step (admin_run True [ClickRebuild, FetchSettled (Inl \<lparr> status = Some 403, detail = None \<rparr>),
       ClickRebuild] :: (unit, unit) admin_world) ClickRebuild = (admin_run True [ClickRebuild, FetchSettled (Inl \<lparr> status = Some 403, detail = None \<rparr>),
       ClickRebuild] :: (unit, unit) admin_world) \<and>
   ((\<forall>r. (ClickRefresh :: (unit, unit) admin_event) \<noteq> RebuildSettled r) \<and>
      (ClickRefresh :: (unit, unit) admin_event) \<noteq> Remount) \<and>
   rebuild_button_disabled (admin_step (admin_run True [ClickRebuild, FetchSettled (Inl \<lparr> status = Some 403, detail = None \<rparr>),
       ClickRebuild] :: (unit, unit) admin_world) ClickRefresh) \<and>
   \<not> rebuild_button_disabled (admin_step (admin_run True [ClickRebuild, FetchSettled (Inl \<lparr> status = Some 403, detail = None \<rparr>),
       ClickRebuild] :: (unit, unit) admin_world) (RebuildSettled (Inr ''index rebuilt''))) \<and>
   rebuilds_posted (admin_step (admin_run True [] :: (unit, unit) admin_world) ClickRebuild) \<noteq> rebuilds_posted (admin_run True [] :: (unit, unit) admin_world) \<and>
   rebuilds_in_flight (admin_run True [] :: (unit, unit) admin_world) = 0 \<and>
   rebuild_button_disabled (admin_step (admin_run True [] :: (unit, unit) admin_world) ClickRebuild) \<and>
   Remount \<notin> set ([ClickRebuild, FetchSettled (Inl \<lparr> status = Some 403, detail = None \<rparr>),
       ClickRebuild] :: (unit, unit) admin_event list) \<and>
   pending_rebuilds (admin_run True [ClickRebuild, FetchSettled (Inl \<lparr> status = Some 403, detail = None \<rparr>),
       ClickRebuild] :: (unit, unit) admin_world) \<le> 1"
proof -
  let ?es = "[ClickRebuild, FetchSettled (Inl \<lparr> status = Some 403, detail = None \<rparr>),
       ClickRebuild] :: (unit, unit) admin_event list"
  let ?w = "admin_run True ?es"
  let ?m = "(admin_run True [] :: (unit, unit) admin_world)"
  have one: "rebuilds_in_flight ?w = 1" and posted: "rebuilds_posted ?w = 1"
    by code_simp+
  have other: "(\<forall>r. (ClickRefresh :: (unit, unit) admin_event) \<noteq> RebuildSettled r) \<and>
      (ClickRefresh :: (unit, unit) admin_event) \<noteq> Remount"
    by simp
  have mounted: "Remount \<notin> set ?es"
    by simp
  have fresh: "rebuilds_posted (admin_step ?m ClickRebuild) \<noteq> rebuilds_posted ?m"
    by code_simp
  have busy: "rebuild_button_disabled ?w"
    using one rebuild_one_per_mount [of True ?es] by blast
  have noop: "admin_step ?w ClickRebuild = ?w"
    using one rebuild_one_per_mount [of True ?es] by blast
  have stays: "rebuild_button_disabled (admin_step ?w ClickRefresh)"
    using one other rebuild_one_per_mount [of True ?es ClickRefresh] by blast
  have again: "\<not> rebuild_button_disabled (admin_step ?w (RebuildSettled (Inr ''index rebuilt'')))"
    using one rebuild_one_per_mount [of True ?es _ "Inr ''index rebuilt''"] by blast
  have idle: "rebuilds_in_flight ?m = 0"
    and then_busy: "rebuild_button_disabled (admin_step ?m ClickRebuild)"
    using fresh rebuild_one_per_mount [of True "[]"] by blast+
  have alone: "pending_rebuilds ?w \<le> 1"
    using mounted rebuild_one_per_mount [of True ?es] by blast
  show ?thesis
    by (intro conjI one posted busy noop other [THEN conjunct1] other [THEN conjunct2]
        stays again fresh idle then_busy mounted alone)
qed

text \<open>
  C5 as first stated, that the page never posts a second rebuild request while one is in
  flight, fails across a remount: after a click on the rebuild button the user leaves the page
  and comes back, the request is still pending and the button of the new instance is enabled;
  a click on it posts a second request, and two are pending.
\<close>

theorem rebuild_one_per_mount_counterexample:
  "pending_rebuilds (admin_run True [ClickRebuild, Remount] :: (unit, unit) admin_world) = 1 \<and>
   \<not> rebuild_button_disabled (admin_run True [ClickRebuild, Remount] :: (unit, unit) admin_world) \<and>
   rebuilds_posted (admin_step (admin_run True [ClickRebuild, Remount] :: (unit, unit) admin_world) ClickRebuild) = 2 \<and>
   pending_rebuilds (admin_step (admin_run True [ClickRebuild, Remount] :: (unit, unit) admin_world) ClickRebuild) = 2"
  by code_simp

end
